theory Spec2Isabelle
  imports Main "HOL-Library.Multiset"
begin

section \<open>Errors\<close>

text \<open>
  The exceptions that can leave the functions of \<^verbatim>\<open>text_processor.py\<close> and
  \<^verbatim>\<open>embeddings_client.py\<close>. The first five are the ones the source and its libraries
  raise: a missing dictionary key, a failing \<^verbatim>\<open>open\<close>, \<^verbatim>\<open>raise_for_status\<close>,
  \<^verbatim>\<open>psycopg2.connect\<close>, and a statement the database server rejects. The last two are
  the error kinds the specification names; no statement of the source raises them, they
  are here so that the specification's sentences can be stated.
\<close>

datatype error =
    KeyError int
  | OSError
  | HTTPError
  | OperationalError
  | DatabaseError
  | ConfigurationError
  | EmbeddingUnavailable

section \<open>The environment: file system, embeddings endpoint, PostgreSQL with pgvector\<close>

text \<open>
  \<open>'f\<close> is Python's float, \<open>'v\<close> the value of pgvector's \<^verbatim>\<open>vector\<close> type and \<open>'d\<close> the
  \<^verbatim>\<open>float8\<close> a distance operator returns (PostgreSQL compares \<^verbatim>\<open>float8\<close> in a total
  order, hence \<open>linorder\<close> where distances are compared). Nothing is assumed about the
  functions of the environment:
  \<^item> \<open>read_file\<close>: \<^verbatim>\<open>open(file_name, 'r', encoding='utf-8').read()\<close>, \<open>None\<close> when it raises;
  \<^item> \<open>post\<close>: the HTTP call of \<^verbatim>\<open>get_embeddings\<close> followed by \<^verbatim>\<open>raise_for_status\<close> and
    \<^verbatim>\<open>response.json().get("data", [])\<close>, as the list of (index, embedding) items,
    \<open>None\<close> when the call raises;
  \<^item> \<open>str_float\<close>: Python's \<^verbatim>\<open>str\<close> on a float;
  \<^item> \<open>connect_ok n\<close>: whether the \<open>n\<close>-th call of \<^verbatim>\<open>psycopg2.connect\<close> succeeds;
  \<^item> \<open>to_vector\<close>: the cast \<^verbatim>\<open>%s::vector\<close> of a text literal, \<open>None\<close> when the server
    rejects it;
  \<^item> \<open>euclidean\<close>, \<open>cosine\<close>: the operators \<^verbatim>\<open><->\<close> and \<^verbatim>\<open><=>\<close>, \<open>None\<close> when the server
    raises (vectors of different dimensions);
  \<^item> \<open>row_order\<close>: the order in which the server hands out the rows of a result under
    \<^verbatim>\<open>ORDER BY distance\<close>; the order of rows at the same distance is its choice.
  Strings that reach the server (table names, statements) are the bytes sent, in UTF-8.
\<close>

text \<open>A row of the result (a \<^verbatim>\<open>RealDictRow\<close> with the keys \<^verbatim>\<open>text\<close> and \<^verbatim>\<open>distance\<close>).\<close>

record 'd result_row =
  row_text :: string
  distance :: 'd

record ('f, 'v, 'd) env =
  read_file :: "string \<Rightarrow> string option"
  post :: "string list \<Rightarrow> int \<Rightarrow> (int \<times> 'f list) list option"
  str_float :: "'f \<Rightarrow> string"
  connect_ok :: "nat \<Rightarrow> bool"
  to_vector :: "string \<Rightarrow> 'v option"
  euclidean :: "'v \<Rightarrow> 'v \<Rightarrow> 'd option"
  cosine :: "'v \<Rightarrow> 'v \<Rightarrow> 'd option"
  row_order :: "'d result_row list \<Rightarrow> 'd result_row list"

text \<open>
  The committed contents of the database: each table, by name, with its rows
  (\<^verbatim>\<open>text\<close>, \<^verbatim>\<open>embedding\<close>) in insertion order. The world is the database together with
  the number of connections opened so far.
\<close>

type_synonym 'v database = "string \<rightharpoonup> (string \<times> 'v) list"

record 'v world =
  tables :: "'v database"
  connects :: nat

section \<open>Embeddings client\<close>

text \<open>
  \<^verbatim>\<open>DialEmbeddingsClient.get_embeddings\<close>: the loop stores every item of the response
  under its index, a later item overwriting an earlier one with the same index.
\<close>

definition get_embeddings ::
  "('f, 'v, 'd) env \<Rightarrow> string list \<Rightarrow> int \<Rightarrow> error + (int \<rightharpoonup> 'f list)" where
  "get_embeddings env input_list dimensions =
     (case post env input_list dimensions of
        None \<Rightarrow> Inl HTTPError
      | Some data \<Rightarrow>
          Inr (fold (\<lambda>(index, embedding_vector) embeddings_dict.
                       embeddings_dict(index \<mapsto> embedding_vector)) data Map.empty))"

section \<open>SQL statements and their execution\<close>

subsection \<open>Identifiers\<close>

text \<open>
  \<^verbatim>\<open>sql.Identifier(name)\<close> renders, through \<^verbatim>\<open>quote_ident\<close> and the client library's
  \<^verbatim>\<open>PQescapeIdentifier\<close>, as the name between double quotes, every double quote of the
  name doubled. The library reads the name as a C string: it stops at the first zero
  byte.
\<close>

definition dquote :: char where
  "dquote = CHR 0x22"

definition nul :: char where
  "nul = CHR 0x00"

fun escape_ident :: "string \<Rightarrow> string" where
  "escape_ident [] = []"
| "escape_ident (c # cs) =
     (if c = nul then []
      else if c = dquote then dquote # dquote # escape_ident cs
      else c # escape_ident cs)"

definition Identifier :: "string \<Rightarrow> string" where
  "Identifier name = dquote # escape_ident name @ [dquote]"

text \<open>\<^verbatim>\<open>sql.SQL("TRUNCATE TABLE {};").format(sql.Identifier(table_name))\<close> as text.\<close>

definition truncate_sql :: "string \<Rightarrow> string" where
  "truncate_sql table_name = ''TRUNCATE TABLE '' @ Identifier table_name @ '';''"

subsection \<open>Reading a script\<close>

text \<open>
  The server's reading of a script: a sequence of statements
  \<^verbatim>\<open>TRUNCATE TABLE "...";\<close>. A quoted identifier ends at the first double quote that
  is not followed by another one; a doubled double quote stands for one. An identifier
  of no characters is a syntax error, and an identifier of 64 bytes or more is cut to
  at most 63 bytes (\<^verbatim>\<open>NAMEDATALEN - 1\<close>), at a character boundary of UTF-8, the encoding
  of the database: \<^verbatim>\<open>truncate_identifier\<close> and \<^verbatim>\<open>pg_mbcliplen\<close> of the server.
\<close>

datatype statement = Truncate string

definition utf_mblen :: "char \<Rightarrow> nat" where
  "utf_mblen c =
     (let b = (of_char c :: nat) in
      if b < 0x80 then 1
      else if 0xC0 \<le> b \<and> b < 0xE0 then 2
      else if 0xE0 \<le> b \<and> b < 0xF0 then 3
      else if 0xF0 \<le> b \<and> b < 0xF8 then 4
      else 1)"

lemma utf_mblen_positive: "0 < utf_mblen c"
  by (simp add: utf_mblen_def Let_def)

function mbcliplen :: "nat \<Rightarrow> string \<Rightarrow> string" where
  "mbcliplen limit [] = []"
| "mbcliplen limit (c # cs) =
     (if limit < utf_mblen c then []
      else take (utf_mblen c) (c # cs) @
           mbcliplen (limit - utf_mblen c) (drop (utf_mblen c) (c # cs)))"
  by pat_completeness auto
termination
  by (relation "measure (\<lambda>(limit, s). length s)") (use utf_mblen_positive in auto)

definition truncate_identifier :: "string \<Rightarrow> string" where
  "truncate_identifier ident = (if 64 \<le> length ident then mbcliplen 63 ident else ident)"

fun quoted_body :: "string \<Rightarrow> (string \<times> string) option" where
  "quoted_body [] = None"
| "quoted_body [c] = (if c = dquote then Some ([], []) else None)"
| "quoted_body (c # d # cs) =
     (if c = dquote then
        (if d = dquote then map_option (apfst ((#) dquote)) (quoted_body cs)
         else Some ([], d # cs))
      else map_option (apfst ((#) c)) (quoted_body (d # cs)))"

fun strip_prefix :: "string \<Rightarrow> string \<Rightarrow> string option" where
  "strip_prefix [] s = Some s"
| "strip_prefix (p # ps) [] = None"
| "strip_prefix (p # ps) (c # cs) = (if p = c then strip_prefix ps cs else None)"

definition parse_statement :: "string \<Rightarrow> (statement \<times> string) option" where
  "parse_statement s =
     (case strip_prefix ''TRUNCATE TABLE '' s of
        None \<Rightarrow> None
      | Some [] \<Rightarrow> None
      | Some (q # r) \<Rightarrow>
          if q \<noteq> dquote then None
          else (case quoted_body r of
                  None \<Rightarrow> None
                | Some (name, []) \<Rightarrow> None
                | Some (name, t # rest) \<Rightarrow>
                    if name = [] then None
                    else if t = CHR '';'' then Some (Truncate (truncate_identifier name), rest)
                    else None))"

fun parse_script :: "nat \<Rightarrow> string \<Rightarrow> statement list option" where
  "parse_script fuel [] = Some []"
| "parse_script 0 (c # cs) = None"
| "parse_script (Suc fuel) (c # cs) =
     (case parse_statement (c # cs) of
        None \<Rightarrow> None
      | Some (st, rest) \<Rightarrow> map_option ((#) st) (parse_script fuel rest))"

text \<open>
  Every statement consumes at least one character, so the length of the script is
  enough fuel.
\<close>

definition parse_sql :: "string \<Rightarrow> statement list option" where
  "parse_sql s = parse_script (length s) s"

subsection \<open>Executing statements\<close>

fun run_statement :: "statement \<Rightarrow> 'v database \<Rightarrow> error + 'v database" where
  "run_statement (Truncate name) db =
     (case db name of
        None \<Rightarrow> Inl DatabaseError
      | Some rows \<Rightarrow> Inr (db(name \<mapsto> [])))"

fun run_statements :: "statement list \<Rightarrow> 'v database \<Rightarrow> error + 'v database" where
  "run_statements [] db = Inr db"
| "run_statements (st # sts) db =
     (case run_statement st db of
        Inl e \<Rightarrow> Inl e
      | Inr db' \<Rightarrow> run_statements sts db')"

text \<open>\<^verbatim>\<open>cursor.execute(text)\<close> for a statement without parameters.\<close>

definition execute_sql :: "string \<Rightarrow> 'v database \<Rightarrow> error + 'v database" where
  "execute_sql s db =
     (case parse_sql s of
        None \<Rightarrow> Inl DatabaseError
      | Some sts \<Rightarrow> run_statements sts db)"

text \<open>
  \<^verbatim>\<open>INSERT INTO vectors (text, embedding) VALUES (%s, %s::vector);\<close> with its two
  parameters.
\<close>

definition execute_insert ::
  "('f, 'v, 'd) env \<Rightarrow> string \<Rightarrow> string \<Rightarrow> 'v database \<Rightarrow> error + 'v database" where
  "execute_insert env chunk embedding_str db =
     (case db ''vectors'' of
        None \<Rightarrow> Inl DatabaseError
      | Some rows \<Rightarrow>
          (case to_vector env embedding_str of
             None \<Rightarrow> Inl DatabaseError
           | Some v \<Rightarrow> Inr (db(''vectors'' \<mapsto> rows @ [(chunk, v)]))))"

text \<open>
  The statement of \<^verbatim>\<open>search\<close>. The f-string has two holes for the distance operator
  (the select list and the WHERE clause); \<^verbatim>\<open>ORDER BY distance\<close> names the column of the
  select list. The four parameters of \<^verbatim>\<open>cursor.execute\<close> are the two vector literals,
  the threshold and the limit.
\<close>

record select_query =
  select_operator :: string
  where_operator :: string

definition sql_operator ::
  "('f, 'v, 'd) env \<Rightarrow> string \<Rightarrow> ('v \<Rightarrow> 'v \<Rightarrow> 'd option) option" where
  "sql_operator env opr =
     (if opr = ''<->'' then Some (euclidean env)
      else if opr = ''<=>'' then Some (cosine env)
      else None)"

text \<open>
  The WHERE clause is evaluated on every row, the select list on the rows that pass;
  an operator that raises on a row aborts the statement.
\<close>

fun select_rows ::
  "('v \<Rightarrow> 'd option) \<Rightarrow> ('v \<Rightarrow> 'd option) \<Rightarrow> 'd::linorder \<Rightarrow> (string \<times> 'v) list \<Rightarrow>
   error + 'd result_row list" where
  "select_rows sel whr threshold [] = Inr []"
| "select_rows sel whr threshold ((t, embedding) # rows) =
     (case whr embedding of
        None \<Rightarrow> Inl DatabaseError
      | Some dw \<Rightarrow>
          if dw < threshold then
            (case sel embedding of
               None \<Rightarrow> Inl DatabaseError
             | Some ds \<Rightarrow>
                 (case select_rows sel whr threshold rows of
                    Inl e \<Rightarrow> Inl e
                  | Inr rs \<Rightarrow> Inr (\<lparr>row_text = t, distance = ds\<rparr> # rs)))
          else select_rows sel whr threshold rows)"

text \<open>
  \<^verbatim>\<open>ORDER BY distance\<close>: the rows come out in an order of the server's choice among the
  arrangements of the rows that ascend by distance. The choice is the environment's
  \<open>row_order\<close>, taken when it is such an arrangement.
\<close>

definition order_by_distance ::
  "('f, 'v, 'd::linorder) env \<Rightarrow> 'd result_row list \<Rightarrow> 'd result_row list" where
  "order_by_distance env rs =
     (let out = row_order env rs in
      if mset out = mset rs \<and> sorted (map distance out) then out
      else sort_key distance rs)"

text \<open>
  \<^verbatim>\<open>LIMIT\<close> is a \<^verbatim>\<open>bigint\<close>: a negative value and a value of \<open>2\<^sup>6\<^sup>3\<close> or more are
  rejected by the server.
\<close>

definition execute_select ::
  "('f, 'v, 'd::linorder) env \<Rightarrow> select_query \<Rightarrow> string \<times> string \<times> 'd \<times> int \<Rightarrow> 'v database \<Rightarrow>
   error + 'd result_row list" where
  "execute_select env q params db =
     (case params of (vec1, vec2, threshold, limit) \<Rightarrow>
      (case db ''vectors'' of
         None \<Rightarrow> Inl DatabaseError
       | Some rows \<Rightarrow>
      (case sql_operator env (select_operator q) of
         None \<Rightarrow> Inl DatabaseError
       | Some sel \<Rightarrow>
      (case sql_operator env (where_operator q) of
         None \<Rightarrow> Inl DatabaseError
       | Some whr \<Rightarrow>
      (case to_vector env vec1 of
         None \<Rightarrow> Inl DatabaseError
       | Some q1 \<Rightarrow>
      (case to_vector env vec2 of
         None \<Rightarrow> Inl DatabaseError
       | Some q2 \<Rightarrow>
           if limit < 0 \<or> 2 ^ 63 \<le> limit then Inl DatabaseError
           else
             (case select_rows (\<lambda>e. sel e q1) (\<lambda>e. whr e q2) threshold rows of
                Inl e \<Rightarrow> Inl e
              | Inr rs \<Rightarrow> Inr (take (nat limit) (order_by_distance env rs)))))))))"

subsection \<open>Connections and transactions\<close>

text \<open>
  \<^verbatim>\<open>with self._get_connection() as conn: ...\<close>: the connection is opened (which may
  fail), the body runs on the contents of the database, and on leaving the block the
  transaction is committed when the body returned and rolled back when it raised. The
  \<^verbatim>\<open>conn.commit()\<close> that ends the block in the source commits the same transaction.
\<close>

definition with_connection ::
  "('f, 'v, 'd) env \<Rightarrow> ('v database \<Rightarrow> error + 'a \<times> 'v database) \<Rightarrow> 'v world \<Rightarrow>
   (error + 'a) \<times> 'v world" where
  "with_connection env body w =
     (let w' = w\<lparr>connects := Suc (connects w)\<rparr> in
      if \<not> connect_ok env (connects w) then (Inl OperationalError, w')
      else (case body (tables w') of
              Inl e \<Rightarrow> (Inl e, w')
            | Inr (a, db') \<Rightarrow> (Inr a, w'\<lparr>tables := db'\<rparr>)))"

section \<open>TextProcessor\<close>

text \<open>\<^verbatim>\<open>SearchMode\<close> is a \<^verbatim>\<open>StrEnum\<close>: its members are strings and compare as strings.\<close>

type_synonym SearchMode = string

definition EUCLIDIAN_DISTANCE :: SearchMode where
  "EUCLIDIAN_DISTANCE = ''euclidean''"

definition COSINE_DISTANCE :: SearchMode where
  "COSINE_DISTANCE = ''cosine''"

text \<open>\<^verbatim>\<open>_truncate_table\<close>\<close>

definition truncate_table ::
  "('f, 'v, 'd) env \<Rightarrow> string \<Rightarrow> 'v world \<Rightarrow> (error + unit) \<times> 'v world" where
  "truncate_table env table_name w =
     with_connection env
       (\<lambda>db. case execute_sql (truncate_sql table_name) db of
                Inl e \<Rightarrow> Inl e
              | Inr db' \<Rightarrow> Inr ((), db')) w"

text \<open>\<^verbatim>\<open>",".join(...)\<close> and the vector literal \<^verbatim>\<open>"[" + ",".join(map(str, v)) + "]"\<close>.\<close>

fun join :: "string \<Rightarrow> string list \<Rightarrow> string" where
  "join sep [] = []"
| "join sep [x] = x"
| "join sep (x # y # xs) = x @ sep @ join sep (y # xs)"

definition embedding_str :: "('f, 'v, 'd) env \<Rightarrow> 'f list \<Rightarrow> string" where
  "embedding_str env embedding_vector =
     ''['' @ join '','' (map (str_float env) embedding_vector) @ '']''"

text \<open>
  The loop \<^verbatim>\<open>for index, chunk in enumerate(chunks)\<close> of \<^verbatim>\<open>process_text_file\<close>:
  \<^verbatim>\<open>embeddings_dict[index]\<close> raises \<^verbatim>\<open>KeyError\<close> on a missing index.
\<close>

fun insert_chunks ::
  "('f, 'v, 'd) env \<Rightarrow> (int \<rightharpoonup> 'f list) \<Rightarrow> (nat \<times> string) list \<Rightarrow> 'v database \<Rightarrow>
   error + 'v database" where
  "insert_chunks env embeddings_dict [] db = Inr db"
| "insert_chunks env embeddings_dict ((index, chunk) # rest) db =
     (case embeddings_dict (int index) of
        None \<Rightarrow> Inl (KeyError (int index))
      | Some embedding_vector \<Rightarrow>
          (case execute_insert env chunk (embedding_str env embedding_vector) db of
             Inl e \<Rightarrow> Inl e
           | Inr db' \<Rightarrow> insert_chunks env embeddings_dict rest db'))"

text \<open>
  \<^verbatim>\<open>process_text_file\<close>. \<^verbatim>\<open>chunk_text\<close> of \<^verbatim>\<open>task.utils.text\<close> is a parameter: any
  function from the content and the two sizes to a list of chunks or an exception.
\<close>

definition process_text_file ::
  "('f, 'v, 'd) env \<Rightarrow> (string \<Rightarrow> int \<Rightarrow> int \<Rightarrow> error + string list) \<Rightarrow>
   string \<Rightarrow> int \<Rightarrow> int \<Rightarrow> int \<Rightarrow> bool \<Rightarrow> 'v world \<Rightarrow> (error + unit) \<times> 'v world" where
  "process_text_file env chunker file_name chunk_size overlap dimensions truncate_flag w =
     (case (if truncate_flag then truncate_table env ''vectors'' w else (Inr (), w)) of
        (Inl e, w1) \<Rightarrow> (Inl e, w1)
      | (Inr u, w1) \<Rightarrow>
     (case read_file env file_name of
        None \<Rightarrow> (Inl OSError, w1)
      | Some content \<Rightarrow>
     (case chunker content chunk_size overlap of
        Inl e \<Rightarrow> (Inl e, w1)
      | Inr chunks \<Rightarrow>
     (case get_embeddings env chunks dimensions of
        Inl e \<Rightarrow> (Inl e, w1)
      | Inr embeddings_dict \<Rightarrow>
          with_connection env
            (\<lambda>db. case insert_chunks env embeddings_dict (enumerate 0 chunks) db of
                     Inl e \<Rightarrow> Inl e
                   | Inr db' \<Rightarrow> Inr ((), db')) w1))))"

text \<open>\<^verbatim>\<open>search\<close>\<close>

definition distance_operator :: "SearchMode \<Rightarrow> string" where
  "distance_operator search_mode =
     (if search_mode = EUCLIDIAN_DISTANCE then ''<->'' else ''<=>'')"

definition query :: "string \<Rightarrow> select_query" where
  "query opr = \<lparr>select_operator = opr, where_operator = opr\<rparr>"

definition search ::
  "('f, 'v, 'd::linorder) env \<Rightarrow> SearchMode \<Rightarrow> string \<Rightarrow> int \<Rightarrow> 'd \<Rightarrow> int \<Rightarrow> 'v world \<Rightarrow>
   (error + 'd result_row list) \<times> 'v world" where
  "search env search_mode user_request top_k min_score_threshold dimensions w =
     (case get_embeddings env [user_request] dimensions of
        Inl e \<Rightarrow> (Inl e, w)
      | Inr request_embedding_dict \<Rightarrow>
     (case request_embedding_dict 0 of
        None \<Rightarrow> (Inl (KeyError 0), w)
      | Some request_embedding_vector \<Rightarrow>
          (let request_embedding_str = embedding_str env request_embedding_vector
           in with_connection env
                (\<lambda>db. case execute_select env (query (distance_operator search_mode))
                              (request_embedding_str, request_embedding_str,
                               min_score_threshold, top_k) db of
                         Inl e \<Rightarrow> Inl e
                       | Inr results \<Rightarrow> Inr (results, db)) w)))"

section \<open>Chunker\<close>

text \<open>
  Modelled from the spec: \<^verbatim>\<open>chunk_text\<close> of \<^verbatim>\<open>task/utils/text.py\<close>, which
  \<^verbatim>\<open>text_processor.py\<close> imports, is not among the sources. The specification (4.1, 7, 8)
  gives: \<^verbatim>\<open>overlap >= chunk_size\<close> and \<^verbatim>\<open>chunk_size <= 0\<close> raise \<^verbatim>\<open>ConfigurationError\<close>;
  otherwise windows of length \<^verbatim>\<open>chunk_size\<close> are emitted, the start advancing by
  \<^verbatim>\<open>chunk_size - overlap\<close>, the last one possibly shorter, none of them empty. Its scenario
  (\<^verbatim>\<open>chunk_size=4, overlap=2\<close> on \<^verbatim>\<open>ABCDEFGH\<close> gives \<^verbatim>\<open>ABCD, CDEF, EFGH\<close>, and not a
  fourth chunk \<^verbatim>\<open>GH\<close>) fixes that no window starts once a window has reached the end of
  the text. The loop is only entered with a positive step.
\<close>

function windows :: "string \<Rightarrow> nat \<Rightarrow> nat \<Rightarrow> nat \<Rightarrow> string list" where
  "windows content n step start =
     (if start < length content \<and> 0 < step then
        take n (drop start content) #
          (if length content \<le> start + n then []
           else windows content n step (start + step))
      else [])"
  by pat_completeness auto
termination
  by (relation "measure (\<lambda>(content, n, step, start). length content - start)") auto

declare windows.simps [simp del]

definition chunk_text :: "string \<Rightarrow> int \<Rightarrow> int \<Rightarrow> error + string list" where
  "chunk_text content chunk_size overlap =
     (if chunk_size \<le> 0 \<or> chunk_size \<le> overlap then Inl ConfigurationError
      else Inr (windows content (nat chunk_size) (nat (chunk_size - overlap)) 0))"

section \<open>A small environment\<close>

text \<open>
  A concrete environment on which the functions can be run: vectors have one
  component, a digit; the embedding of a text is its length; the Euclidean distance of
  two such vectors is the absolute difference, their cosine distance 0 when the
  components have the same sign and 2 otherwise. One file exists, every connection
  succeeds, the endpoint rejects a non-positive number of dimensions, and rows at the
  same distance come out in the order of the table.
\<close>

definition digits :: "(char \<times> int) list" where
  "digits = [(CHR ''0'', 0), (CHR ''1'', 1), (CHR ''2'', 2), (CHR ''3'', 3), (CHR ''4'', 4),
             (CHR ''5'', 5), (CHR ''6'', 6), (CHR ''7'', 7), (CHR ''8'', 8), (CHR ''9'', 9)]"

definition small_env :: "(int, int, int) env" where
  "small_env =
     \<lparr>read_file = [''manual.txt'' \<mapsto> ''AAAABBBBCC''],
      post = (\<lambda>input_list dimensions.
                if dimensions \<le> 0 then None
                else Some (map (\<lambda>(i, s). (int i, [int (length s)])) (enumerate 0 input_list))),
      str_float = (\<lambda>x. case map_of (map prod.swap digits) x of None \<Rightarrow> ''nan'' | Some c \<Rightarrow> [c]),
      connect_ok = (\<lambda>n. True),
      to_vector = (\<lambda>s. case s of
                          [l, c, r] \<Rightarrow> if l = CHR ''['' \<and> r = CHR '']'' then map_of digits c else None
                        | _ \<Rightarrow> None),
      euclidean = (\<lambda>a b. Some \<bar>a - b\<bar>),
      cosine = (\<lambda>a b. Some (if 0 < a * b then 0 else 2)),
      row_order = sort_key distance\<rparr>"

definition small_world :: "int world" where
  "small_world =
     \<lparr>tables = [''vectors'' \<mapsto> [(''far'', 9), (''near'', 4), (''exact'', 3), (''close'', 2)]],
      connects = 0\<rparr>"

text \<open>
  A chunker that cuts the content after its fourth and its eighth character, and an
  endpoint that answers with the embeddings of the first two inputs only.
\<close>

definition small_chunker :: "string \<Rightarrow> int \<Rightarrow> int \<Rightarrow> error + string list" where
  "small_chunker content chunk_size overlap =
     Inr [take 4 content, take 4 (drop 4 content), drop 8 content]"

definition sparse_env :: "(int, int, int) env" where
  "sparse_env = small_env\<lparr>post := \<lambda>input_list dimensions. Some [(0, [4]), (1, [4])]\<rparr>"

section \<open>The truncation statement\<close>

lemma dquote_not_nul: "dquote \<noteq> nul"
  by (simp add: dquote_def nul_def)

lemma quoted_body_escape_ident:
  "rest = [] \<or> hd rest \<noteq> dquote \<Longrightarrow>
   quoted_body (escape_ident name @ dquote # rest) = Some (takeWhile (\<lambda>c. c \<noteq> nul) name, rest)"
proof (induction name)
  case Nil
  then show ?case by (cases rest) auto
next
  case (Cons c cs)
  have closing: "quoted_body (dquote # rest) = Some ([], rest)"
    using Cons.prems by (cases rest) auto
  obtain d ds where tail: "escape_ident cs @ dquote # rest = d # ds"
    by (cases "escape_ident cs @ dquote # rest") auto
  show ?case
  proof (cases "c = nul")
    case True
    then show ?thesis using closing by simp
  next
    case False
    show ?thesis
    proof (cases "c = dquote")
      case True
      then show ?thesis using Cons False by simp
    next
      case notq: False
      have "quoted_body (c # d # ds) = map_option (apfst ((#) c)) (quoted_body (d # ds))"
        using notq by simp
      then show ?thesis using False notq Cons tail by simp
    qed
  qed
qed

lemma parse_statement_truncate_sql:
  "parse_statement (truncate_sql name @ rest) =
     (if takeWhile (\<lambda>c. c \<noteq> nul) name = [] then None
      else Some (Truncate (truncate_identifier (takeWhile (\<lambda>c. c \<noteq> nul) name)), rest))"
proof -
  have "quoted_body (escape_ident name @ dquote # CHR '';'' # rest) =
        Some (takeWhile (\<lambda>c. c \<noteq> nul) name, CHR '';'' # rest)"
    by (rule quoted_body_escape_ident) (simp add: dquote_def)
  then show ?thesis
    unfolding parse_statement_def truncate_sql_def Identifier_def by simp
qed

lemma parse_sql_truncate_sql:
  "parse_sql (truncate_sql name) =
     (if takeWhile (\<lambda>c. c \<noteq> nul) name = [] then None
      else Some [Truncate (truncate_identifier (takeWhile (\<lambda>c. c \<noteq> nul) name))])"
proof -
  obtain c cs where s: "truncate_sql name = c # cs"
    by (simp add: truncate_sql_def)
  have "parse_statement (c # cs) =
     (if takeWhile (\<lambda>c. c \<noteq> nul) name = [] then None
      else Some (Truncate (truncate_identifier (takeWhile (\<lambda>c. c \<noteq> nul) name)), []))"
    using parse_statement_truncate_sql [of name "[]"] s by simp
  then show ?thesis
    unfolding parse_sql_def s by simp
qed

lemma execute_sql_truncate_sql:
  "execute_sql (truncate_sql name) db =
     (if takeWhile (\<lambda>c. c \<noteq> nul) name = [] then Inl DatabaseError
      else (case db (truncate_identifier (takeWhile (\<lambda>c. c \<noteq> nul) name)) of
              None \<Rightarrow> Inl DatabaseError
            | Some rows \<Rightarrow>
                Inr (db(truncate_identifier (takeWhile (\<lambda>c. c \<noteq> nul) name) \<mapsto> []))))"
  by (simp add: execute_sql_def parse_sql_truncate_sql split: option.splits)

lemma truncate_table_result:
  "truncate_table env table_name w =
     (if \<not> connect_ok env (connects w)
      then (Inl OperationalError, w\<lparr>connects := Suc (connects w)\<rparr>)
      else if takeWhile (\<lambda>c. c \<noteq> nul) table_name = []
      then (Inl DatabaseError, w\<lparr>connects := Suc (connects w)\<rparr>)
      else (case tables w (truncate_identifier (takeWhile (\<lambda>c. c \<noteq> nul) table_name)) of
              None \<Rightarrow> (Inl DatabaseError, w\<lparr>connects := Suc (connects w)\<rparr>)
            | Some rows \<Rightarrow>
                (Inr (), w\<lparr>connects := Suc (connects w),
                           tables := (tables w)
                             (truncate_identifier (takeWhile (\<lambda>c. c \<noteq> nul) table_name) \<mapsto> [])\<rparr>)))"
  by (simp add: truncate_table_def with_connection_def execute_sql_truncate_sql Let_def
           split: option.splits)

lemma truncate_table_vectors:
  "truncate_table env ''vectors'' w =
     (if \<not> connect_ok env (connects w)
      then (Inl OperationalError, w\<lparr>connects := Suc (connects w)\<rparr>)
      else (case tables w ''vectors'' of
              None \<Rightarrow> (Inl DatabaseError, w\<lparr>connects := Suc (connects w)\<rparr>)
            | Some rows \<Rightarrow>
                (Inr (), w\<lparr>connects := Suc (connects w),
                           tables := (tables w)(''vectors'' \<mapsto> [])\<rparr>)))"
proof -
  have sent: "takeWhile (\<lambda>c. c \<noteq> nul) ''vectors'' = ''vectors''"
    by (simp add: nul_def)
  have kept: "truncate_identifier ''vectors'' = ''vectors''"
    by (simp add: truncate_identifier_def)
  show ?thesis
    unfolding truncate_table_result sent kept by simp
qed






section \<open>Search\<close>

lemma sql_operator_distance_operator:
  "sql_operator env (distance_operator m) =
     Some (if m = EUCLIDIAN_DISTANCE then euclidean env else cosine env)"
  by (simp add: sql_operator_def distance_operator_def)

lemma select_rows_same:
  "\<forall>(t, e) \<in> set rows. g e \<noteq> None \<Longrightarrow>
   select_rows g g thr rows =
     Inr (List.map_filter
            (\<lambda>(t, e). case g e of
                         None \<Rightarrow> None
                       | Some d \<Rightarrow> if d < thr then Some \<lparr>row_text = t, distance = d\<rparr> else None)
            rows)"
proof (induction rows)
  case Nil
  then show ?case by (simp add: List.map_filter_simps)
next
  case (Cons row rows)
  obtain t e where row: "row = (t, e)" by (cases row)
  from Cons.prems row obtain d where d: "g e = Some d" by auto
  from Cons have IH: "select_rows g g thr rows =
     Inr (List.map_filter
            (\<lambda>(t, e). case g e of
                         None \<Rightarrow> None
                       | Some d \<Rightarrow> if d < thr then Some \<lparr>row_text = t, distance = d\<rparr> else None)
            rows)" by simp
  show ?case by (simp add: row d IH List.map_filter_simps)
qed

lemma select_rows_Inr_defined:
  "select_rows sel whr thr rows = Inr rs \<Longrightarrow> \<forall>(t, e) \<in> set rows. whr e \<noteq> None"
proof (induction rows arbitrary: rs)
  case Nil
  then show ?case by simp
next
  case (Cons row rows)
  obtain t e where row: "row = (t, e)" by (cases row)
  from Cons.prems row obtain rs' where "select_rows sel whr thr rows = Inr rs'" and "whr e \<noteq> None"
    by (auto split: option.splits if_splits sum.splits)
  with Cons.IH row show ?case by simp
qed

lemma mset_order_by_distance: "mset (order_by_distance env rs) = mset rs"
  by (simp add: order_by_distance_def Let_def)

lemma sorted_order_by_distance: "sorted (map distance (order_by_distance env rs))"
  by (simp add: order_by_distance_def Let_def)

lemma order_by_distance_choice:
  "mset out = mset rs \<Longrightarrow> sorted (map distance out) \<Longrightarrow> row_order env rs = out \<Longrightarrow>
   order_by_distance env rs = out"
  by (simp add: order_by_distance_def Let_def)

lemma execute_select_query:
  "execute_select env (query (distance_operator m)) (s, s, thr, k) db =
     (case db ''vectors'' of
        None \<Rightarrow> Inl DatabaseError
      | Some rows \<Rightarrow>
          (case to_vector env s of
             None \<Rightarrow> Inl DatabaseError
           | Some qv \<Rightarrow>
               if k < 0 \<or> 2 ^ 63 \<le> k then Inl DatabaseError
               else (case select_rows
                            (\<lambda>e. (if m = EUCLIDIAN_DISTANCE then euclidean env else cosine env) e qv)
                            (\<lambda>e. (if m = EUCLIDIAN_DISTANCE then euclidean env else cosine env) e qv)
                            thr rows of
                       Inl e \<Rightarrow> Inl e
                     | Inr rs \<Rightarrow> Inr (take (nat k) (order_by_distance env rs)))))"
  by (simp add: execute_select_def query_def sql_operator_distance_operator
           split: option.splits)

lemma search_unfold:
  "get_embeddings env [user_request] dimensions = Inr d \<Longrightarrow> d 0 = Some vec \<Longrightarrow>
   search env m user_request top_k thr dimensions w =
     (if \<not> connect_ok env (connects w)
      then (Inl OperationalError, w\<lparr>connects := Suc (connects w)\<rparr>)
      else (case execute_select env (query (distance_operator m))
                   (embedding_str env vec, embedding_str env vec, thr, top_k) (tables w) of
              Inl e \<Rightarrow> (Inl e, w\<lparr>connects := Suc (connects w)\<rparr>)
            | Inr results \<Rightarrow> (Inr results, w\<lparr>connects := Suc (connects w)\<rparr>)))"
  by (simp add: search_def with_connection_def Let_def split: sum.splits)

lemma set_map_filter: "set (List.map_filter h xs) = {y. \<exists>x \<in> set xs. h x = Some y}"
  by (induction xs) (auto simp: List.map_filter_simps split: option.splits)

lemma length_map_filter: "length (List.map_filter h xs) = length (filter (\<lambda>x. h x \<noteq> None) xs)"
  by (induction xs) (auto simp: List.map_filter_simps split: option.splits)

lemma nearest_properties:
  fixes thr :: "'d::linorder"
  assumes perm: "mset ordered = mset
       (List.map_filter
          (\<lambda>(t, e). case g e of
                       None \<Rightarrow> None
                     | Some x \<Rightarrow> if x < thr then Some \<lparr>row_text = t, distance = x\<rparr> else None)
          rows)"
    and asc: "sorted (map distance ordered)"
    and cut: "results = take n ordered"
  shows "\<forall>r \<in> set results.
           distance r < thr \<and> (\<exists>(t, e) \<in> set rows. row_text r = t \<and> g e = Some (distance r))"
    and "sorted (map distance results)"
    and "length results =
           min n (length (filter (\<lambda>(t, e). \<exists>x. g e = Some x \<and> x < thr) rows))"
proof -
  let ?h = "\<lambda>(t, e). case g e of
                       None \<Rightarrow> None
                     | Some x \<Rightarrow> if x < thr then Some \<lparr>row_text = t, distance = x\<rparr> else None"
  let ?kept = "List.map_filter ?h rows"
  from perm have same_set: "set ordered = set ?kept"
    by (rule mset_eq_setD)
  from perm have same_length: "length ordered = length ?kept"
    by (rule mset_eq_length)
  show "\<forall>r \<in> set results.
           distance r < thr \<and> (\<exists>(t, e) \<in> set rows. row_text r = t \<and> g e = Some (distance r))"
  proof
    fix r assume "r \<in> set results"
    then have "r \<in> set ?kept" using cut same_set by (auto dest: in_set_takeD)
    then obtain row where row: "row \<in> set rows" "?h row = Some r"
      by (auto simp: set_map_filter)
    obtain t e where te: "row = (t, e)" by (cases row)
    from row te show "distance r < thr \<and>
        (\<exists>(t, e) \<in> set rows. row_text r = t \<and> g e = Some (distance r))"
      by (auto split: option.splits if_splits)
  qed
  show "sorted (map distance results)"
    using asc cut by (simp add: take_map [symmetric] sorted_wrt_take)
  have "(\<lambda>x. ?h x \<noteq> None) = (\<lambda>(t, e). \<exists>x. g e = Some x \<and> x < thr)"
    by (auto simp: fun_eq_iff split: option.splits)
  then have "length ?kept = length (filter (\<lambda>(t, e). \<exists>x. g e = Some x \<and> x < thr) rows)"
    by (simp add: length_map_filter)
  then show "length results =
           min n (length (filter (\<lambda>(t, e). \<exists>x. g e = Some x \<and> x < thr) rows))"
    using cut same_length by (simp add: min.commute)
qed

lemma search_Inr:
  fixes thr :: "'d::linorder"
  assumes "search env m user_request top_k thr dimensions w = (Inr results, w')"
  shows "\<exists>d vec qv rows.
     get_embeddings env [user_request] dimensions = Inr d \<and> d 0 = Some vec \<and>
     to_vector env (embedding_str env vec) = Some qv \<and>
     connect_ok env (connects w) \<and> tables w ''vectors'' = Some rows \<and>
     0 \<le> top_k \<and> top_k < 2 ^ 63 \<and>
     (\<forall>(t, e) \<in> set rows.
        (if m = EUCLIDIAN_DISTANCE then euclidean env else cosine env) e qv \<noteq> None) \<and>
     results = take (nat top_k) (order_by_distance env
       (List.map_filter
          (\<lambda>(t, e). case (if m = EUCLIDIAN_DISTANCE then euclidean env else cosine env) e qv of
                       None \<Rightarrow> None
                     | Some x \<Rightarrow> if x < thr then Some \<lparr>row_text = t, distance = x\<rparr> else None)
          rows)) \<and>
     w' = w\<lparr>connects := Suc (connects w)\<rparr>"
proof -
  let ?f = "if m = EUCLIDIAN_DISTANCE then euclidean env else cosine env"
  from assms obtain d where d: "get_embeddings env [user_request] dimensions = Inr d"
    by (auto simp: search_def split: sum.splits)
  from assms d obtain vec where vec: "d 0 = Some vec"
    by (auto simp: search_def split: option.splits)
  note run = assms [unfolded search_unfold [OF d vec]]
  from run have up: "connect_ok env (connects w)"
    by (auto split: if_splits)
  from run up obtain rs where ex: "execute_select env (query (distance_operator m))
       (embedding_str env vec, embedding_str env vec, thr, top_k) (tables w) = Inr rs"
      and res: "results = rs" and w': "w' = w\<lparr>connects := Suc (connects w)\<rparr>"
    by (auto split: sum.splits)
  from ex obtain rows where rows: "tables w ''vectors'' = Some rows"
    by (auto simp: execute_select_query split: option.splits)
  from ex rows obtain qv where qv: "to_vector env (embedding_str env vec) = Some qv"
    by (auto simp: execute_select_query split: option.splits)
  from ex rows qv have k: "0 \<le> top_k" "top_k < 2 ^ 63"
    by (auto simp: execute_select_query split: if_splits)
  from ex rows qv k obtain kept where
    kept: "select_rows (\<lambda>e. ?f e qv) (\<lambda>e. ?f e qv) thr rows = Inr kept"
    and rs: "rs = take (nat top_k) (order_by_distance env kept)"
    by (auto simp: execute_select_query split: sum.splits)
  from select_rows_Inr_defined [OF kept]
  have defined: "\<forall>(t, e) \<in> set rows. ?f e qv \<noteq> None" .
  from select_rows_same [OF defined, of thr] kept have "kept = List.map_filter
          (\<lambda>(t, e). case ?f e qv of
                       None \<Rightarrow> None
                     | Some x \<Rightarrow> if x < thr then Some \<lparr>row_text = t, distance = x\<rparr> else None)
          rows" by simp
  with d vec qv up rows k defined res rs w' show ?thesis by blast
qed

lemma search_returns:
  fixes thr :: "'d::linorder"
  assumes top_k: "0 \<le> top_k" "top_k < 2 ^ 63"
    and gateway: "get_embeddings env [user_request] dimensions = Inr d" "d 0 = Some vec"
    and cast: "to_vector env (embedding_str env vec) = Some qv"
    and up: "connect_ok env (connects w)"
    and table: "tables w ''vectors'' = Some rows"
    and defined: "\<forall>(t, e) \<in> set rows.
        (if m = EUCLIDIAN_DISTANCE then euclidean env else cosine env) e qv \<noteq> None"
  shows "search env m user_request top_k thr dimensions w =
       (Inr (take (nat top_k) (order_by_distance env
       (List.map_filter
          (\<lambda>(t, e). case (if m = EUCLIDIAN_DISTANCE then euclidean env else cosine env) e qv of
                       None \<Rightarrow> None
                     | Some x \<Rightarrow> if x < thr then Some \<lparr>row_text = t, distance = x\<rparr> else None)
          rows))), w\<lparr>connects := Suc (connects w)\<rparr>)"
proof -
  let ?f = "if m = EUCLIDIAN_DISTANCE then euclidean env else cosine env"
  have sel: "select_rows (\<lambda>e. ?f e qv) (\<lambda>e. ?f e qv) thr rows = Inr (List.map_filter
          (\<lambda>(t, e). case ?f e qv of
                       None \<Rightarrow> None
                     | Some x \<Rightarrow> if x < thr then Some \<lparr>row_text = t, distance = x\<rparr> else None)
          rows)"
    using select_rows_same [of rows "\<lambda>e. ?f e qv" thr] defined by simp
  show ?thesis
    using top_k up table cast sel
    by (simp add: search_unfold [OF gateway] execute_select_query)
qed


lemmas small_search_defs =
  search_def get_embeddings_def embedding_str_def with_connection_def execute_select_def
  order_by_distance_def query_def sql_operator_def distance_operator_def
  EUCLIDIAN_DISTANCE_def small_env_def small_world_def digits_def enumerate_eq_zip

text \<open>
  C1: for every table, request, mode, threshold and positive \<^verbatim>\<open>top_k\<close>, whenever
  \<^verbatim>\<open>search\<close> returns, the rows it returns are the first \<^verbatim>\<open>top_k\<close> of an arrangement, in
  non-decreasing order of distance, of all the stored rows whose distance to the query
  vector is strictly below the threshold, the distance being the Euclidean one when the
  mode equals \<^verbatim>\<open>EUCLIDIAN_DISTANCE\<close> and the cosine one otherwise. So every returned
  distance is below the threshold and is the distance of a stored row under that
  metric, the distances do not decrease, there are at most \<^verbatim>\<open>top_k\<close> rows, and their
  number is the smaller of \<^verbatim>\<open>top_k\<close> and the number of stored rows below the threshold:
  the threshold is applied before the cut, and fewer than \<^verbatim>\<open>top_k\<close> rows is a result,
  not an error. The call does return, whatever the number of rows that pass, when the
  endpoint gives an embedding for the request, the server accepts it as a vector, the
  connection succeeds, the table exists, the metric is defined on its rows and
  \<^verbatim>\<open>top_k\<close> is a \<^verbatim>\<open>bigint\<close>; a \<^verbatim>\<open>top_k\<close> of \<open>2\<^sup>6\<^sup>3\<close> or more raises.
\<close>

theorem search_nearest:
  fixes thr :: "'d::linorder"
  assumes top_k: "0 < top_k"
  shows
    "(\<forall>results w'.
        search env m user_request top_k thr dimensions w = (Inr results, w') \<longrightarrow>
        (\<exists>d vec qv rows ordered.
           get_embeddings env [user_request] dimensions = Inr d \<and> d 0 = Some vec \<and>
           to_vector env (embedding_str env vec) = Some qv \<and>
           tables w ''vectors'' = Some rows \<and>
           mset ordered = mset
             (List.map_filter
                (\<lambda>(t, e).
                   case (if m = EUCLIDIAN_DISTANCE then euclidean env else cosine env) e qv of
                     None \<Rightarrow> None
                   | Some x \<Rightarrow> if x < thr then Some \<lparr>row_text = t, distance = x\<rparr> else None)
                rows) \<and>
           sorted (map distance ordered) \<and>
           results = take (nat top_k) ordered \<and>
           (\<forall>r \<in> set results.
              distance r < thr \<and>
              (\<exists>(t, e) \<in> set rows.
                 row_text r = t \<and>
                 (if m = EUCLIDIAN_DISTANCE then euclidean env else cosine env) e qv =
                   Some (distance r))) \<and>
           sorted (map distance results) \<and>
           int (length results) \<le> top_k \<and>
           length results =
             min (nat top_k)
               (length (filter
                  (\<lambda>(t, e). \<exists>x.
                     (if m = EUCLIDIAN_DISTANCE then euclidean env else cosine env) e qv = Some x \<and>
                     x < thr)
                  rows)))) \<and>
     (\<forall>d vec qv rows.
        get_embeddings env [user_request] dimensions = Inr d \<and> d 0 = Some vec \<and>
        to_vector env (embedding_str env vec) = Some qv \<and>
        connect_ok env (connects w) \<and> tables w ''vectors'' = Some rows \<and>
        (\<forall>(t, e) \<in> set rows.
           (if m = EUCLIDIAN_DISTANCE then euclidean env else cosine env) e qv \<noteq> None) \<and>
        top_k < 2 ^ 63 \<longrightarrow>
        (\<exists>results. search env m user_request top_k thr dimensions w =
                      (Inr results, w\<lparr>connects := Suc (connects w)\<rparr>))) \<and>
     (2 ^ 63 \<le> top_k \<longrightarrow>
        (\<exists>e w'. search env m user_request top_k thr dimensions w = (Inl e, w')))"
proof -
  let ?M = "if m = EUCLIDIAN_DISTANCE then euclidean env else cosine env"
  have returned: "\<exists>d vec qv rows ordered.
           get_embeddings env [user_request] dimensions = Inr d \<and> d 0 = Some vec \<and>
           to_vector env (embedding_str env vec) = Some qv \<and>
           tables w ''vectors'' = Some rows \<and>
           mset ordered = mset
             (List.map_filter
                (\<lambda>(t, e). case ?M e qv of
                     None \<Rightarrow> None
                   | Some x \<Rightarrow> if x < thr then Some \<lparr>row_text = t, distance = x\<rparr> else None)
                rows) \<and>
           sorted (map distance ordered) \<and>
           results = take (nat top_k) ordered \<and>
           (\<forall>r \<in> set results.
              distance r < thr \<and>
              (\<exists>(t, e) \<in> set rows. row_text r = t \<and> ?M e qv = Some (distance r))) \<and>
           sorted (map distance results) \<and>
           int (length results) \<le> top_k \<and>
           length results =
             min (nat top_k)
               (length (filter (\<lambda>(t, e). \<exists>x. ?M e qv = Some x \<and> x < thr) rows))"
    if run: "search env m user_request top_k thr dimensions w = (Inr results, w')"
    for results w'
  proof -
    from search_Inr [OF run] obtain d vec qv rows where
      g: "get_embeddings env [user_request] dimensions = Inr d" "d 0 = Some vec"
      and c: "to_vector env (embedding_str env vec) = Some qv"
      and t: "tables w ''vectors'' = Some rows"
      and r: "results = take (nat top_k) (order_by_distance env
       (List.map_filter
          (\<lambda>(t, e). case ?M e qv of
                       None \<Rightarrow> None
                     | Some x \<Rightarrow> if x < thr then Some \<lparr>row_text = t, distance = x\<rparr> else None)
          rows))"
      by blast
    let ?kept = "List.map_filter
          (\<lambda>(t, e). case ?M e qv of
                       None \<Rightarrow> None
                     | Some x \<Rightarrow> if x < thr then Some \<lparr>row_text = t, distance = x\<rparr> else None)
          rows"
    let ?ordered = "order_by_distance env ?kept"
    have perm: "mset ?ordered = mset ?kept"
      by (rule mset_order_by_distance)
    have asc: "sorted (map distance ?ordered)"
      by (rule sorted_order_by_distance)
    have bound: "int (length results) \<le> top_k"
      using top_k r by simp
    from g c t perm asc r bound
      nearest_properties [where g = "\<lambda>e. ?M e qv" and n = "nat top_k", OF perm asc r]
    show ?thesis by blast
  qed
  have returns: "\<exists>results. search env m user_request top_k thr dimensions w =
                      (Inr results, w\<lparr>connects := Suc (connects w)\<rparr>)"
    if "get_embeddings env [user_request] dimensions = Inr d \<and> d 0 = Some vec \<and>
        to_vector env (embedding_str env vec) = Some qv \<and>
        connect_ok env (connects w) \<and> tables w ''vectors'' = Some rows \<and>
        (\<forall>(t, e) \<in> set rows. ?M e qv \<noteq> None) \<and> top_k < 2 ^ 63"
    for d vec qv rows
  proof -
    from that top_k have "0 \<le> top_k" "top_k < 2 ^ 63" by simp_all
    from search_returns [OF this, of env user_request dimensions d vec qv w rows m thr] that
    show ?thesis by blast
  qed
  have beyond: "\<exists>e w'. search env m user_request top_k thr dimensions w = (Inl e, w')"
    if big: "2 ^ 63 \<le> top_k"
  proof (cases "search env m user_request top_k thr dimensions w")
    case (Pair r w')
    show ?thesis
    proof (cases r)
      case (Inl e)
      with Pair show ?thesis by blast
    next
      case (Inr results)
      with Pair search_Inr [of env m user_request top_k thr dimensions w results w'] big
      show ?thesis by auto
    qed
  qed
  from returned returns beyond show ?thesis by blast
qed

text \<open>
  With threshold 2 and \<^verbatim>\<open>top_k\<close> 5, three of the four stored rows are returned, the
  row at distance 6 is not.
\<close>

theorem search_nearest_witness:
  "search small_env EUCLIDIAN_DISTANCE ''abc'' 5 2 1 small_world =
     (Inr [\<lparr>row_text = ''exact'', distance = 0\<rparr>, \<lparr>row_text = ''near'', distance = 1\<rparr>,
           \<lparr>row_text = ''close'', distance = 1\<rparr>], small_world\<lparr>connects := 1\<rparr>) \<and>
   (\<exists>rows qv.
      tables small_world ''vectors'' = Some rows \<and>
      to_vector small_env (embedding_str small_env [3]) = Some qv \<and>
      (\<exists>(t, e) \<in> set rows. t = ''near'' \<and> euclidean small_env e qv = Some 1)) \<and>
   (\<exists>results. search small_env EUCLIDIAN_DISTANCE ''abc'' 5 2 1 small_world =
                (Inr results, small_world\<lparr>connects := Suc (connects small_world)\<rparr>))"
proof -
  let ?results = "[\<lparr>row_text = ''exact'', distance = 0::int\<rparr>, \<lparr>row_text = ''near'', distance = 1\<rparr>,
           \<lparr>row_text = ''close'', distance = 1\<rparr>]"
  have k: "(0::int) < 5" by simp
  note inst = search_nearest [OF k, of small_env EUCLIDIAN_DISTANCE "''abc''" 2 1 small_world]
  have run: "search small_env EUCLIDIAN_DISTANCE ''abc'' 5 2 1 small_world =
     (Inr ?results, small_world\<lparr>connects := 1\<rparr>)"
    by (simp add: small_search_defs List.map_filter_simps)
  have g: "get_embeddings small_env [''abc''] 1 = Inr [0 \<mapsto> [3]]"
    by (simp add: get_embeddings_def small_env_def enumerate_eq_zip)
  have c: "to_vector small_env (embedding_str small_env [3]) = Some 3"
    by (simp add: embedding_str_def small_env_def digits_def)
  have t: "tables small_world ''vectors'' =
             Some [(''far'', 9), (''near'', 4), (''exact'', 3), (''close'', 2)]"
    by (simp add: small_world_def)
  from inst run obtain d vec qv rows where
    "get_embeddings small_env [''abc''] 1 = Inr d" "d 0 = Some vec"
    "to_vector small_env (embedding_str small_env vec) = Some qv"
    "tables small_world ''vectors'' = Some rows"
    "\<forall>r \<in> set ?results. distance r < 2 \<and>
       (\<exists>(t, e) \<in> set rows. row_text r = t \<and>
          (if EUCLIDIAN_DISTANCE = EUCLIDIAN_DISTANCE then euclidean small_env else cosine small_env)
            e qv = Some (distance r))"
    by blast
  with g c have member: "\<exists>rows qv.
      tables small_world ''vectors'' = Some rows \<and>
      to_vector small_env (embedding_str small_env [3]) = Some qv \<and>
      (\<exists>(t, e) \<in> set rows. t = ''near'' \<and> euclidean small_env e qv = Some 1)"
    by auto
  have works: "get_embeddings small_env [''abc''] 1 = Inr [0 \<mapsto> [3]] \<and>
      [0 \<mapsto> [3::int]] (0::int) = Some [3] \<and>
      to_vector small_env (embedding_str small_env [3]) = Some 3 \<and>
      connect_ok small_env (connects small_world) \<and>
      tables small_world ''vectors'' =
        Some [(''far'', 9), (''near'', 4), (''exact'', 3), (''close'', 2)] \<and>
      (\<forall>(t, e) \<in> set [(''far'', 9), (''near'', 4), (''exact'', 3), (''close'', 2::int)].
         (if EUCLIDIAN_DISTANCE = EUCLIDIAN_DISTANCE then euclidean small_env else cosine small_env)
           e 3 \<noteq> None) \<and>
      (5::int) < 2 ^ 63"
    using g c t by (simp add: small_env_def)
  with inst have exists: "\<exists>results. search small_env EUCLIDIAN_DISTANCE ''abc'' 5 2 1 small_world =
                (Inr results, small_world\<lparr>connects := Suc (connects small_world)\<rparr>)"
    by blast
  from run member exists show ?thesis by blast
qed


text \<open>
  C10: the operator \<^verbatim>\<open>search\<close> selects is \<^verbatim>\<open><->\<close> exactly when the mode equals
  \<^verbatim>\<open>EUCLIDIAN_DISTANCE\<close> and \<^verbatim>\<open><=>\<close> for every other value; the statement carries that one
  operator in its select list and in its WHERE clause, and the server reads it as the
  Euclidean or the cosine distance accordingly. So whenever \<^verbatim>\<open>search\<close> returns, every
  row it returns reports its distance to the query vector under that operator, that
  same distance is below the threshold, and the rows are ordered by it.
\<close>

theorem search_single_operator:
  fixes thr :: "'d::linorder"
  shows "(distance_operator m = ''<->'' \<longleftrightarrow> m = EUCLIDIAN_DISTANCE) \<and>
   (distance_operator m = ''<=>'' \<longleftrightarrow> m \<noteq> EUCLIDIAN_DISTANCE) \<and>
   select_operator (query (distance_operator m)) = distance_operator m \<and>
   where_operator (query (distance_operator m)) = distance_operator m \<and>
   sql_operator env (distance_operator m) =
     Some (if m = EUCLIDIAN_DISTANCE then euclidean env else cosine env) \<and>
   (\<forall>results w'.
      search env m user_request top_k thr dimensions w = (Inr results, w') \<longrightarrow>
      (\<exists>d vec qv rows f.
         get_embeddings env [user_request] dimensions = Inr d \<and> d 0 = Some vec \<and>
         to_vector env (embedding_str env vec) = Some qv \<and>
         tables w ''vectors'' = Some rows \<and>
         f = (if m = EUCLIDIAN_DISTANCE then euclidean env else cosine env) \<and>
         (\<forall>r \<in> set results.
            distance r < thr \<and>
            (\<exists>(t, e) \<in> set rows. row_text r = t \<and> f e qv = Some (distance r))) \<and>
         sorted (map distance results)))"
proof -
  have ops: "(distance_operator m = ''<->'' \<longleftrightarrow> m = EUCLIDIAN_DISTANCE) \<and>
   (distance_operator m = ''<=>'' \<longleftrightarrow> m \<noteq> EUCLIDIAN_DISTANCE)"
    by (simp add: distance_operator_def)
  have holes: "select_operator (query (distance_operator m)) = distance_operator m \<and>
   where_operator (query (distance_operator m)) = distance_operator m"
    by (simp add: query_def)
  have results: "\<exists>d vec qv rows f.
         get_embeddings env [user_request] dimensions = Inr d \<and> d 0 = Some vec \<and>
         to_vector env (embedding_str env vec) = Some qv \<and>
         tables w ''vectors'' = Some rows \<and>
         f = (if m = EUCLIDIAN_DISTANCE then euclidean env else cosine env) \<and>
         (\<forall>r \<in> set results.
            distance r < thr \<and>
            (\<exists>(t, e) \<in> set rows. row_text r = t \<and> f e qv = Some (distance r))) \<and>
         sorted (map distance results)"
    if run: "search env m user_request top_k thr dimensions w = (Inr results, w')"
    for results w'
  proof -
    let ?f = "if m = EUCLIDIAN_DISTANCE then euclidean env else cosine env"
    from search_Inr [OF run] obtain d vec qv rows where
      g: "get_embeddings env [user_request] dimensions = Inr d" "d 0 = Some vec"
      and c: "to_vector env (embedding_str env vec) = Some qv"
      and t: "tables w ''vectors'' = Some rows"
      and r: "results = take (nat top_k) (order_by_distance env
       (List.map_filter
          (\<lambda>(t, e). case ?f e qv of
                       None \<Rightarrow> None
                     | Some x \<Rightarrow> if x < thr then Some \<lparr>row_text = t, distance = x\<rparr> else None)
          rows))"
      by blast
    from g c t nearest_properties(1,2)
      [where g = "\<lambda>e. ?f e qv", OF mset_order_by_distance sorted_order_by_distance r]
    show ?thesis by blast
  qed
  from ops holes sql_operator_distance_operator [of env m] results
  show ?thesis by blast
qed

text \<open>
  A mode that is neither member of the enumeration selects the cosine operator, and the
  distances returned are cosine distances.
\<close>

theorem search_single_operator_witness:
  "distance_operator ''manhattan'' = ''<=>'' \<and>
   distance_operator EUCLIDIAN_DISTANCE = ''<->'' \<and>
   search small_env ''manhattan'' ''abc'' 2 5 1 small_world =
     (Inr [\<lparr>row_text = ''far'', distance = 0\<rparr>, \<lparr>row_text = ''near'', distance = 0\<rparr>],
      small_world\<lparr>connects := 1\<rparr>) \<and>
   (\<exists>rows. tables small_world ''vectors'' = Some rows \<and>
      (\<exists>(t, e) \<in> set rows. t = ''far'' \<and> cosine small_env e 3 = Some 0))"
proof -
  have ops: "distance_operator ''manhattan'' = ''<=>'' \<and>
      distance_operator EUCLIDIAN_DISTANCE = ''<->''"
    by (simp add: distance_operator_def EUCLIDIAN_DISTANCE_def)
  have run: "search small_env ''manhattan'' ''abc'' 2 5 1 small_world =
     (Inr [\<lparr>row_text = ''far'', distance = 0\<rparr>, \<lparr>row_text = ''near'', distance = 0\<rparr>],
      small_world\<lparr>connects := 1\<rparr>)"
    by (simp add: small_search_defs List.map_filter_simps)
  have emb: "get_embeddings small_env [''abc''] 1 = Inr [0 \<mapsto> [3]]"
    by (simp add: get_embeddings_def small_env_def enumerate_eq_zip)
  have cast: "to_vector small_env (embedding_str small_env [3]) = Some 3"
    by (simp add: embedding_str_def small_env_def digits_def)
  from search_single_operator [of "''manhattan''" small_env "''abc''" 2 5 1 small_world] run
  obtain d vec qv rows where
    "get_embeddings small_env [''abc''] 1 = Inr d" "d 0 = Some vec"
    "to_vector small_env (embedding_str small_env vec) = Some qv"
    "tables small_world ''vectors'' = Some rows"
    "\<exists>(t, e) \<in> set rows. row_text \<lparr>row_text = ''far'', distance = 0::int\<rparr> = t \<and>
        (if ''manhattan'' = EUCLIDIAN_DISTANCE then euclidean small_env else cosine small_env) e qv
          = Some (distance \<lparr>row_text = ''far'', distance = 0::int\<rparr>)"
    by fastforce
  with emb cast have "\<exists>rows. tables small_world ''vectors'' = Some rows \<and>
      (\<exists>(t, e) \<in> set rows. t = ''far'' \<and> cosine small_env e 3 = Some 0)"
    by (auto simp: EUCLIDIAN_DISTANCE_def)
  with ops run show ?thesis by blast
qed

section \<open>Ingestion\<close>

lemma insert_chunks_Inr:
  "insert_chunks env d ics db = Inr db' \<Longrightarrow>
   \<exists>new. map fst new = map snd ics \<and>
         db' = (case db ''vectors'' of None \<Rightarrow> db | Some rows \<Rightarrow> db(''vectors'' \<mapsto> rows @ new))"
proof (induction ics arbitrary: db)
  case Nil
  then have "db' = db" by simp
  then show ?case by (auto split: option.splits)
next
  case (Cons ic ics)
  obtain i chunk where ic: "ic = (i, chunk)" by (cases ic)
  from Cons.prems ic obtain vec where vec: "d (int i) = Some vec"
    by (auto split: option.splits)
  from Cons.prems ic vec obtain db1 where
    ins: "execute_insert env chunk (embedding_str env vec) db = Inr db1"
    and rest: "insert_chunks env d ics db1 = Inr db'"
    by (auto split: sum.splits)
  from ins obtain rows v where rows: "db ''vectors'' = Some rows"
    and db1: "db1 = db(''vectors'' \<mapsto> rows @ [(chunk, v)])"
    by (auto simp: execute_insert_def split: option.splits)
  from Cons.IH [OF rest] obtain new where
    new: "map fst new = map snd ics"
    and step: "db' = (case db1 ''vectors'' of
                        None \<Rightarrow> db1
                      | Some rows \<Rightarrow> db1(''vectors'' \<mapsto> rows @ new))"
    by blast
  have db': "db' = db(''vectors'' \<mapsto> rows @ (chunk, v) # new)"
    unfolding step db1 by simp
  have "map fst ((chunk, v) # new) = map snd (ic # ics)"
    using new ic by simp
  with db' rows show ?case
    by (intro exI [of _ "(chunk, v) # new"]) simp
qed


lemma with_connection_cases:
  "with_connection env body w =
     (if \<not> connect_ok env (connects w) then (Inl OperationalError, w\<lparr>connects := Suc (connects w)\<rparr>)
      else (case body (tables w) of
              Inl e \<Rightarrow> (Inl e, w\<lparr>connects := Suc (connects w)\<rparr>)
            | Inr (a, db') \<Rightarrow> (Inr a, w\<lparr>connects := Suc (connects w), tables := db'\<rparr>)))"
  by (simp add: with_connection_def Let_def split: sum.splits prod.splits)


lemma process_text_file_truncate_first:
  "process_text_file env chunker file_name chunk_size overlap dimensions True w =
     (case truncate_table env ''vectors'' w of
        (Inl e, w1) \<Rightarrow> (Inl e, w1)
      | (Inr u, w1) \<Rightarrow>
          process_text_file env chunker file_name chunk_size overlap dimensions False w1)"
  by (simp add: process_text_file_def split: prod.splits sum.splits)

lemma process_text_file_insert_only:
  assumes "process_text_file env chunker file_name chunk_size overlap dimensions False w = (r, w')"
  shows "(\<exists>e. r = Inl e \<and> tables w' = tables w) \<or>
         (r = Inr () \<and>
          (\<exists>content chunks new.
             read_file env file_name = Some content \<and>
             chunker content chunk_size overlap = Inr chunks \<and>
             map fst new = chunks \<and>
             tables w' = (case tables w ''vectors'' of
                            None \<Rightarrow> tables w
                          | Some rows \<Rightarrow> (tables w)(''vectors'' \<mapsto> rows @ new))))"
proof (cases "read_file env file_name")
  case None
  with assms show ?thesis by (auto simp: process_text_file_def)
next
  case (Some content)
  note content = this
  show ?thesis
  proof (cases "chunker content chunk_size overlap")
    case (Inl e)
    with assms content show ?thesis by (auto simp: process_text_file_def)
  next
    case (Inr chunks)
    note chunks = this
    show ?thesis
    proof (cases "get_embeddings env chunks dimensions")
      case (Inl e)
      with assms content chunks show ?thesis by (auto simp: process_text_file_def)
    next
      case (Inr d)
      with assms content chunks have run:
        "with_connection env
            (\<lambda>db. case insert_chunks env d (enumerate 0 chunks) db of
                     Inl e \<Rightarrow> Inl e
                   | Inr db' \<Rightarrow> Inr ((), db')) w = (r, w')"
        by (simp add: process_text_file_def)
      show ?thesis
      proof (cases "insert_chunks env d (enumerate 0 chunks) (tables w)")
        case (Inl e)
        with run show ?thesis
          by (auto simp: with_connection_cases split: if_splits)
      next
        case (Inr db')
        from insert_chunks_Inr [OF Inr] obtain new where
          new: "map fst new = chunks"
          and db': "db' = (case tables w ''vectors'' of
                             None \<Rightarrow> tables w
                           | Some rows \<Rightarrow> (tables w)(''vectors'' \<mapsto> rows @ new))"
          by (auto simp: map_snd_enumerate)
        show ?thesis
        proof (cases "connect_ok env (connects w)")
          case False
          with run show ?thesis by (auto simp: with_connection_cases)
        next
          case True
          with run Inr have "r = Inr ()" and "tables w' = db'"
            by (auto simp: with_connection_cases)
          with content chunks new db' show ?thesis by blast
        qed
      qed
    qed
  qed
qed


text \<open>
  C4: the rows of one document are inserted in one transaction. After
  \<^verbatim>\<open>process_text_file\<close>, whatever it was called with, the database is in one of two
  states relative to the state \<open>base\<close> the insertion started from (the database as it
  was, with the table emptied when the truncation was asked for and succeeded): the
  call raised and the database is \<open>base\<close>, with no row of the document; or it returned
  and the table holds the rows of \<open>base\<close> followed by one row per chunk, in the order of
  the chunks, each with the text of its chunk. An error inside the insertion loop (a
  missing embedding, a vector the server rejects) leaves \<open>base\<close>.
\<close>

theorem process_text_file_atomic:
  assumes run: "process_text_file env chunker file_name chunk_size overlap dimensions
                  truncate_flag w = (r, w')"
    and base: "base = (if truncate_flag \<and> connect_ok env (connects w) \<and> tables w ''vectors'' \<noteq> None
                       then (tables w)(''vectors'' \<mapsto> []) else tables w)"
  shows "(\<exists>e. r = Inl e \<and> tables w' = base) \<or>
         (r = Inr () \<and>
          (\<exists>content chunks new.
             read_file env file_name = Some content \<and>
             chunker content chunk_size overlap = Inr chunks \<and>
             map fst new = chunks \<and>
             tables w' = (case base ''vectors'' of
                            None \<Rightarrow> base
                          | Some rows \<Rightarrow> base(''vectors'' \<mapsto> rows @ new))))"
proof (cases truncate_flag)
  case False
  with base have b: "base = tables w" by simp
  from run False have
    "process_text_file env chunker file_name chunk_size overlap dimensions False w = (r, w')"
    by simp
  then show ?thesis unfolding b by (rule process_text_file_insert_only)
next
  case True
  show ?thesis
  proof (cases "connect_ok env (connects w) \<and> tables w ''vectors'' \<noteq> None")
    case False
    with True base have b: "base = tables w" by auto
    from False have "\<exists>e. truncate_table env ''vectors'' w = (Inl e, w\<lparr>connects := Suc (connects w)\<rparr>)"
      by (auto simp: truncate_table_vectors)
    with run True have "\<exists>e. r = Inl e" and "w' = w\<lparr>connects := Suc (connects w)\<rparr>"
      by (auto simp: process_text_file_truncate_first)
    then show ?thesis unfolding b by simp
  next
    case ok: True
    let ?w1 = "w\<lparr>connects := Suc (connects w), tables := (tables w)(''vectors'' \<mapsto> [])\<rparr>"
    from ok True base have b: "base = tables ?w1" by auto
    from ok have "truncate_table env ''vectors'' w = (Inr (), ?w1)"
      by (auto simp: truncate_table_vectors)
    with run True have
      "process_text_file env chunker file_name chunk_size overlap dimensions False ?w1 = (r, w')"
      by (simp add: process_text_file_truncate_first)
    then show ?thesis unfolding b by (rule process_text_file_insert_only)
  qed
qed


lemmas small_run_defs =
  process_text_file_def truncate_table_vectors with_connection_def get_embeddings_def
  execute_insert_def embedding_str_def small_env_def sparse_env_def small_world_def
  small_chunker_def digits_def enumerate_eq_zip

text \<open>The three chunks of the file are all stored.\<close>

theorem process_text_file_atomic_witness:
  "process_text_file small_env small_chunker ''manual.txt'' 4 0 1 True small_world =
     (Inr (), \<lparr>tables = [''vectors'' \<mapsto> [(''AAAA'', 4), (''BBBB'', 4), (''CC'', 2)]],
               connects = 2\<rparr>) \<and>
   (\<exists>content chunks new.
      read_file small_env ''manual.txt'' = Some content \<and>
      small_chunker content 4 0 = Inr chunks \<and>
      map fst new = chunks \<and>
      [''vectors'' \<mapsto> [(''AAAA'', 4), (''BBBB'', 4), (''CC'', 2::int)]] =
        ((tables small_world)(''vectors'' \<mapsto> []))(''vectors'' \<mapsto> [] @ new))"
proof -
  have run: "process_text_file small_env small_chunker ''manual.txt'' 4 0 1 True small_world =
     (Inr (), \<lparr>tables = [''vectors'' \<mapsto> [(''AAAA'', 4), (''BBBB'', 4), (''CC'', 2)]],
               connects = 2\<rparr>)"
    by (simp add: small_run_defs)
  have base: "(tables small_world)(''vectors'' \<mapsto> []) =
     (if True \<and> connect_ok small_env (connects small_world) \<and>
         tables small_world ''vectors'' \<noteq> None
      then (tables small_world)(''vectors'' \<mapsto> []) else tables small_world)"
    by (simp add: small_env_def small_world_def)
  from process_text_file_atomic [OF run base] run show ?thesis
    by simp
qed


text \<open>
  C9: when \<^verbatim>\<open>process_text_file\<close> is called with \<^verbatim>\<open>truncate_table=True\<close> and the
  truncation succeeds, the truncation is committed first and the rest of the call is
  the call without truncation on the emptied table. So when reading the file, the
  chunker or the request for embeddings fails, the world is exactly the one the
  truncation left (no further connection was opened); and whenever the call fails, at
  the insertion too, the table is left empty: the rows it held are not restored.
\<close>

theorem truncation_committed_first:
  assumes up: "connect_ok env (connects w)"
    and table: "tables w ''vectors'' = Some rows"
    and run: "process_text_file env chunker file_name chunk_size overlap dimensions True w = (r, w')"
    and w1: "w1 = w\<lparr>connects := Suc (connects w), tables := (tables w)(''vectors'' \<mapsto> [])\<rparr>"
  shows "truncate_table env ''vectors'' w = (Inr (), w1) \<and>
    process_text_file env chunker file_name chunk_size overlap dimensions False w1 = (r, w') \<and>
    (read_file env file_name = None \<longrightarrow> r = Inl OSError \<and> w' = w1) \<and>
    (\<forall>content e.
       read_file env file_name = Some content \<and> chunker content chunk_size overlap = Inl e \<longrightarrow>
       r = Inl e \<and> w' = w1) \<and>
    (\<forall>content chunks e.
       read_file env file_name = Some content \<and> chunker content chunk_size overlap = Inr chunks \<and>
       get_embeddings env chunks dimensions = Inl e \<longrightarrow>
       r = Inl e \<and> w' = w1) \<and>
    (\<forall>e. r = Inl e \<longrightarrow>
       tables w' = (tables w)(''vectors'' \<mapsto> []) \<and> tables w' ''vectors'' = Some [])"
proof -
  have trunc: "truncate_table env ''vectors'' w = (Inr (), w1)"
    using up table w1 by (simp add: truncate_table_vectors)
  with run have rest:
    "process_text_file env chunker file_name chunk_size overlap dimensions False w1 = (r, w')"
    by (simp add: process_text_file_truncate_first)
  have nofile: "read_file env file_name = None \<longrightarrow> r = Inl OSError \<and> w' = w1"
    using rest by (auto simp: process_text_file_def)
  have nochunks: "\<forall>content e.
       read_file env file_name = Some content \<and> chunker content chunk_size overlap = Inl e \<longrightarrow>
       r = Inl e \<and> w' = w1"
    using rest by (auto simp: process_text_file_def)
  have noemb: "\<forall>content chunks e.
       read_file env file_name = Some content \<and> chunker content chunk_size overlap = Inr chunks \<and>
       get_embeddings env chunks dimensions = Inl e \<longrightarrow>
       r = Inl e \<and> w' = w1"
    using rest by (auto simp: process_text_file_def)
  have t1: "tables w1 = (tables w)(''vectors'' \<mapsto> [])"
    using w1 by simp
  have failed: "\<forall>e. r = Inl e \<longrightarrow>
       tables w' = (tables w)(''vectors'' \<mapsto> []) \<and> tables w' ''vectors'' = Some []"
    using process_text_file_insert_only [OF rest] unfolding t1 by auto
  from trunc rest nofile nochunks noemb failed show ?thesis by blast
qed

text \<open>
  A missing file, and a missing embedding during the insertion, both leave the table
  empty, which held four rows.
\<close>

theorem truncation_committed_first_witness:
  "process_text_file small_env small_chunker ''nofile.txt'' 4 0 1 True small_world =
     (Inl OSError, \<lparr>tables = [''vectors'' \<mapsto> []], connects = 1\<rparr>) \<and>
   process_text_file sparse_env small_chunker ''manual.txt'' 4 0 1 True small_world =
     (Inl (KeyError 2), \<lparr>tables = [''vectors'' \<mapsto> []], connects = 2\<rparr>) \<and>
   tables small_world ''vectors'' =
     Some [(''far'', 9), (''near'', 4), (''exact'', 3), (''close'', 2)]"
proof -
  have up: "connect_ok small_env (connects small_world)"
    by (simp add: small_env_def)
  have table: "tables small_world ''vectors'' =
     Some [(''far'', 9), (''near'', 4), (''exact'', 3), (''close'', 2)]"
    by (simp add: small_world_def)
  have run: "process_text_file small_env small_chunker ''nofile.txt'' 4 0 1 True small_world =
     (Inl OSError, \<lparr>tables = [''vectors'' \<mapsto> []], connects = 1\<rparr>)"
    by (simp add: small_run_defs)
  have insert: "process_text_file sparse_env small_chunker ''manual.txt'' 4 0 1 True small_world =
     (Inl (KeyError 2), \<lparr>tables = [''vectors'' \<mapsto> []], connects = 2\<rparr>)"
    by (simp add: small_run_defs)
  have nofile: "read_file small_env ''nofile.txt'' = None"
    by (simp add: small_env_def)
  from truncation_committed_first [OF up table run refl] nofile
  have "Inl OSError = (Inl OSError :: error + unit) \<and>
        \<lparr>tables = [''vectors'' \<mapsto> []], connects = 1\<rparr> =
          small_world\<lparr>connects := Suc (connects small_world),
                       tables := (tables small_world)(''vectors'' \<mapsto> [])\<rparr>"
    by blast
  with run insert table show ?thesis by blast
qed

subsection \<open>A missing embedding\<close>








section \<open>What search checks and what it returns\<close>

lemma search_error_kinds:
  fixes thr :: "'d::linorder"
  assumes "search env m user_request top_k thr dimensions w = (Inl e, w')"
  shows "e = HTTPError \<or> e = KeyError 0 \<or> e = OperationalError \<or> e = DatabaseError"
proof -
  have sel: "e' = DatabaseError"
    if "select_rows sel whr t rows = Inl e'" for sel whr and t :: 'd and rows e'
    using that
    by (induction rows) (auto split: option.splits if_splits sum.splits)
  have ex: "e' = DatabaseError"
    if "execute_select env q p db = Inl e'" for q p db e'
    using that sel
    by (auto simp: execute_select_def split: prod.splits option.splits if_splits sum.splits)
  from assms ex show ?thesis
    by (auto simp: search_def get_embeddings_def with_connection_cases Let_def
             split: option.splits sum.splits if_splits)
qed

text \<open>
  C7, as the code has it: \<^verbatim>\<open>search\<close> checks neither \<^verbatim>\<open>top_k\<close> nor \<^verbatim>\<open>dimensions\<close> and
  never raises \<^verbatim>\<open>ConfigurationError\<close>. Whatever \<^verbatim>\<open>top_k\<close> is, it first requests the
  embedding of the request with the dimensions it was given, and a failing request ends
  the call with the HTTP error before the store is contacted. When the endpoint and the
  store work, \<^verbatim>\<open>top_k = 0\<close> returns the empty list, and a negative \<^verbatim>\<open>top_k\<close> is refused
  by the server, as a database error, after the endpoint has answered and the
  connection has been opened. A call opens at most one connection to the store.
\<close>

theorem search_no_validation:
  fixes thr :: "'d::linorder"
  shows "fst (search env m user_request top_k thr dimensions w) \<noteq> Inl ConfigurationError \<and>
   (post env [user_request] dimensions = None \<longrightarrow>
      search env m user_request top_k thr dimensions w = (Inl HTTPError, w)) \<and>
   (\<forall>d vec qv rows.
      get_embeddings env [user_request] dimensions = Inr d \<and> d 0 = Some vec \<and>
      to_vector env (embedding_str env vec) = Some qv \<and>
      connect_ok env (connects w) \<and> tables w ''vectors'' = Some rows \<and>
      (\<forall>(t, e) \<in> set rows.
         (if m = EUCLIDIAN_DISTANCE then euclidean env else cosine env) e qv \<noteq> None) \<longrightarrow>
      (top_k = 0 \<longrightarrow>
         search env m user_request top_k thr dimensions w =
           (Inr [], w\<lparr>connects := Suc (connects w)\<rparr>)) \<and>
      (top_k < 0 \<longrightarrow>
         search env m user_request top_k thr dimensions w =
           (Inl DatabaseError, w\<lparr>connects := Suc (connects w)\<rparr>))) \<and>
   connects (snd (search env m user_request top_k thr dimensions w)) \<le> Suc (connects w)"
proof -
  have never: "fst (search env m user_request top_k thr dimensions w) \<noteq> Inl ConfigurationError"
  proof
    assume "fst (search env m user_request top_k thr dimensions w) = Inl ConfigurationError"
    then obtain w' where
      "search env m user_request top_k thr dimensions w = (Inl ConfigurationError, w')"
      by (cases "search env m user_request top_k thr dimensions w") auto
    from search_error_kinds [OF this] show False by simp
  qed
  have gateway: "post env [user_request] dimensions = None \<longrightarrow>
      search env m user_request top_k thr dimensions w = (Inl HTTPError, w)"
    by (simp add: search_def get_embeddings_def)
  have store: "(top_k = 0 \<longrightarrow>
         search env m user_request top_k thr dimensions w =
           (Inr [], w\<lparr>connects := Suc (connects w)\<rparr>)) \<and>
      (top_k < 0 \<longrightarrow>
         search env m user_request top_k thr dimensions w =
           (Inl DatabaseError, w\<lparr>connects := Suc (connects w)\<rparr>))"
    if g: "get_embeddings env [user_request] dimensions = Inr d" "d 0 = Some vec"
      and c: "to_vector env (embedding_str env vec) = Some qv"
      and u: "connect_ok env (connects w)" and t: "tables w ''vectors'' = Some rows"
      and df: "\<forall>(t, e) \<in> set rows.
                 (if m = EUCLIDIAN_DISTANCE then euclidean env else cosine env) e qv \<noteq> None"
    for d vec qv rows
  proof (intro conjI impI)
    assume "top_k = 0"
    with search_returns [OF _ _ g c u t df, of top_k thr]
    show "search env m user_request top_k thr dimensions w =
           (Inr [], w\<lparr>connects := Suc (connects w)\<rparr>)"
      by simp
  next
    assume "top_k < 0"
    with c u t show "search env m user_request top_k thr dimensions w =
           (Inl DatabaseError, w\<lparr>connects := Suc (connects w)\<rparr>)"
      by (simp add: search_unfold [OF g] execute_select_query)
  qed
  have once: "connects (snd (search env m user_request top_k thr dimensions w)) \<le>
                Suc (connects w)"
    by (simp add: search_def with_connection_cases Let_def
             split: option.splits sum.splits prod.splits)
  from never gateway store once show ?thesis by blast
qed

text \<open>
  \<^verbatim>\<open>top_k = 0\<close> returns an empty list; \<^verbatim>\<open>top_k = -1\<close> is a database error raised after
  the connection was opened; \<^verbatim>\<open>dimensions = 0\<close> is the error of the endpoint.
\<close>

theorem search_no_validation_counterexample:
  "search small_env EUCLIDIAN_DISTANCE ''abc'' 0 5 1 small_world =
     (Inr [], small_world\<lparr>connects := 1\<rparr>) \<and>
   fst (search small_env EUCLIDIAN_DISTANCE ''abc'' 0 5 1 small_world) \<noteq> Inl ConfigurationError \<and>
   search small_env EUCLIDIAN_DISTANCE ''abc'' (- 1) 5 1 small_world =
     (Inl DatabaseError, small_world\<lparr>connects := 1\<rparr>) \<and>
   search small_env EUCLIDIAN_DISTANCE ''abc'' 5 5 0 small_world = (Inl HTTPError, small_world)"
  by (simp add: small_search_defs)

text \<open>An endpoint that refuses zero dimensions: the call ends with its error.\<close>

theorem search_no_validation_witness:
  "post small_env [''abc''] 0 = None \<and>
   search small_env EUCLIDIAN_DISTANCE ''abc'' 5 5 0 small_world = (Inl HTTPError, small_world) \<and>
   fst (search small_env EUCLIDIAN_DISTANCE ''abc'' 0 5 1 small_world) \<noteq> Inl ConfigurationError"
proof -
  have p: "post small_env [''abc''] 0 = None"
    by (simp add: small_env_def)
  with search_no_validation [of small_env EUCLIDIAN_DISTANCE "''abc''" 5 5 0 small_world]
  have "search small_env EUCLIDIAN_DISTANCE ''abc'' 5 5 0 small_world = (Inl HTTPError, small_world)"
    by blast
  with p search_no_validation [of small_env EUCLIDIAN_DISTANCE "''abc''" 0 5 1 small_world]
  show ?thesis by blast
qed

text \<open>
  C2: \<^verbatim>\<open>search\<close> returns the rows of the cursor, each with its text and its distance,
  not the texts alone: two tables with the same text at different distances give
  different results.
\<close>

theorem search_exposes_distance:
  "fst (search small_env EUCLIDIAN_DISTANCE ''abc'' 1 5 1
          \<lparr>tables = [''vectors'' \<mapsto> [(''text'', 3)]], connects = 0\<rparr>) =
     Inr [\<lparr>row_text = ''text'', distance = 0\<rparr>] \<and>
   fst (search small_env EUCLIDIAN_DISTANCE ''abc'' 1 5 1
          \<lparr>tables = [''vectors'' \<mapsto> [(''text'', 4)]], connects = 0\<rparr>) =
     Inr [\<lparr>row_text = ''text'', distance = 1\<rparr>] \<and>
   map row_text [\<lparr>row_text = ''text'', distance = 0::int\<rparr>] =
     map row_text [\<lparr>row_text = ''text'', distance = 1::int\<rparr>] \<and>
   [\<lparr>row_text = ''text'', distance = 0::int\<rparr>] \<noteq> [\<lparr>row_text = ''text'', distance = 1::int\<rparr>]"
  by (simp add: small_search_defs)

section \<open>The chunker of the specification\<close>

lemma windows_out: "\<not> (s < length c \<and> 0 < step) \<Longrightarrow> windows c n step s = []"
  by (subst windows.simps) simp

lemma windows_last:
  "s < length c \<Longrightarrow> 0 < step \<Longrightarrow> length c \<le> s + n \<Longrightarrow>
   windows c n step s = [take n (drop s c)]"
  by (subst windows.simps) simp

lemma windows_more:
  "s < length c \<Longrightarrow> 0 < step \<Longrightarrow> s + n < length c \<Longrightarrow>
   windows c n step s = take n (drop s c) # windows c n step (s + step)"
  by (subst windows.simps) simp

lemma windows_nth:
  "i < length (windows c n step s) \<Longrightarrow>
   windows c n step s ! i = take n (drop (s + i * step) c) \<and> s + i * step < length c"
proof (induction c n step s arbitrary: i rule: windows.induct)
  case (1 c n step s)
  show ?case
  proof (cases "s < length c \<and> 0 < step")
    case False
    with "1.prems" show ?thesis by (simp add: windows_out)
  next
    case True
    show ?thesis
    proof (cases "length c \<le> s + n")
      case last: True
      with True "1.prems" show ?thesis by (simp add: windows_last)
    next
      case more: False
      then have eq: "windows c n step s = take n (drop s c) # windows c n step (s + step)"
        using True by (simp add: windows_more)
      show ?thesis
      proof (cases i)
        case 0
        with eq True show ?thesis by simp
      next
        case (Suc j)
        with "1.prems" eq have "j < length (windows c n step (s + step))" by simp
        from "1.IH" [OF True more this] Suc eq show ?thesis
          by (simp add: add.assoc add.commute add.left_commute)
      qed
    qed
  qed
qed

lemma windows_inner:
  "Suc i < length (windows c n step s) \<Longrightarrow> s + i * step + n < length c"
proof (induction c n step s arbitrary: i rule: windows.induct)
  case (1 c n step s)
  show ?case
  proof (cases "s < length c \<and> 0 < step")
    case False
    with "1.prems" show ?thesis by (simp add: windows_out)
  next
    case True
    show ?thesis
    proof (cases "length c \<le> s + n")
      case last: True
      with True "1.prems" show ?thesis by (simp add: windows_last)
    next
      case more: False
      then have eq: "windows c n step s = take n (drop s c) # windows c n step (s + step)"
        using True by (simp add: windows_more)
      show ?thesis
      proof (cases i)
        case 0
        with more show ?thesis by simp
      next
        case (Suc j)
        with "1.prems" eq have "Suc j < length (windows c n step (s + step))" by simp
        from "1.IH" [OF True more this] Suc show ?thesis
          by (simp add: add.assoc add.commute add.left_commute)
      qed
    qed
  qed
qed

lemma windows_reach_end:
  "step \<le> n \<Longrightarrow> windows c n step s \<noteq> [] \<Longrightarrow>
   length c \<le> s + (length (windows c n step s) - 1) * step + n"
proof (induction c n step s rule: windows.induct)
  case (1 c n step s)
  show ?case
  proof (cases "s < length c \<and> 0 < step")
    case False
    with "1.prems" show ?thesis by (simp add: windows_out)
  next
    case True
    show ?thesis
    proof (cases "length c \<le> s + n")
      case last: True
      with True show ?thesis by (simp add: windows_last)
    next
      case more: False
      then have eq: "windows c n step s = take n (drop s c) # windows c n step (s + step)"
        using True by (simp add: windows_more)
      from more "1.prems"(1) have "s + step < length c" by simp
      with True have ne: "windows c n step (s + step) \<noteq> []"
        by (subst windows.simps) simp
      then have pos: "0 < length (windows c n step (s + step))" by simp
      from "1.IH" [OF True more "1.prems"(1) ne]
      have "length c \<le> s + step + (length (windows c n step (s + step)) - 1) * step + n" .
      also have "s + step + (length (windows c n step (s + step)) - 1) * step =
                 s + length (windows c n step (s + step)) * step"
        using pos by (cases "length (windows c n step (s + step))") simp_all
      finally show ?thesis using eq by simp
    qed
  qed
qed

lemma windows_empty_iff: "0 < step \<Longrightarrow> windows c n step s = [] \<longleftrightarrow> length c \<le> s"
  by (subst windows.simps) auto


text \<open>
  C5: for a positive \<^verbatim>\<open>chunk_size\<close> and \<^verbatim>\<open>0 <= overlap < chunk_size\<close> the chunker returns
  a list of chunks, never an error. Chunk \<open>i\<close> is the window of the text that starts at
  \<open>i * (chunk_size - overlap)\<close> and is \<^verbatim>\<open>chunk_size\<close> long, cut at the end of the text and
  not padded; no chunk is empty; every chunk but the last has exactly \<^verbatim>\<open>chunk_size\<close>
  characters and ends before the end of the text; the last chunk reaches the end of the
  text (so it is the only one that can be shorter, and no window follows it); the list
  is empty exactly for the empty text; and \<^verbatim>\<open>chunk_size=4, overlap=2\<close> on
  \<^verbatim>\<open>ABCDEFGH\<close> gives \<^verbatim>\<open>ABCD, CDEF, EFGH\<close>.
\<close>

theorem chunk_text_windows:
  assumes size: "0 < chunk_size" and low: "0 \<le> overlap" and high: "overlap < chunk_size"
  shows "\<exists>chunks.
    chunk_text content chunk_size overlap = Inr chunks \<and>
    (\<forall>i<length chunks.
       chunks ! i = take (nat chunk_size) (drop (i * nat (chunk_size - overlap)) content) \<and>
       chunks ! i \<noteq> [] \<and> int (length (chunks ! i)) \<le> chunk_size) \<and>
    (\<forall>i. Suc i < length chunks \<longrightarrow>
       int (length (chunks ! i)) = chunk_size \<and>
       i * nat (chunk_size - overlap) + nat chunk_size < length content) \<and>
    (chunks \<noteq> [] \<longrightarrow>
       length content \<le> (length chunks - 1) * nat (chunk_size - overlap) + nat chunk_size) \<and>
    (chunks = [] \<longleftrightarrow> content = []) \<and>
    chunk_text ''ABCDEFGH'' 4 2 = Inr [''ABCD'', ''CDEF'', ''EFGH'']"
proof -
  let ?n = "nat chunk_size" and ?step = "nat (chunk_size - overlap)"
  let ?ws = "windows content ?n ?step 0"
  have n: "0 < ?n" and step: "0 < ?step" and le: "?step \<le> ?n"
    using size low high by simp_all
  have run: "chunk_text content chunk_size overlap = Inr ?ws"
    using size high by (simp add: chunk_text_def)
  have each: "\<forall>i<length ?ws.
       ?ws ! i = take ?n (drop (i * ?step) content) \<and>
       ?ws ! i \<noteq> [] \<and> int (length (?ws ! i)) \<le> chunk_size"
  proof (intro allI impI)
    fix i assume "i < length ?ws"
    from windows_nth [OF this]
    have w: "?ws ! i = take ?n (drop (i * ?step) content)" and inside: "i * ?step < length content"
      by simp_all
    from w inside n have "?ws ! i \<noteq> []" by simp
    moreover from w size have "int (length (?ws ! i)) \<le> chunk_size" by simp
    ultimately show "?ws ! i = take ?n (drop (i * ?step) content) \<and>
       ?ws ! i \<noteq> [] \<and> int (length (?ws ! i)) \<le> chunk_size"
      using w by blast
  qed
  have inner: "\<forall>i. Suc i < length ?ws \<longrightarrow>
       int (length (?ws ! i)) = chunk_size \<and> i * ?step + ?n < length content"
  proof (intro allI impI)
    fix i assume i: "Suc i < length ?ws"
    from windows_inner [OF i] have far: "i * ?step + ?n < length content" by simp
    from i have "i < length ?ws" by simp
    from windows_nth [OF this] have "?ws ! i = take ?n (drop (i * ?step) content)" by simp
    with far size have "int (length (?ws ! i)) = chunk_size" by simp
    with far show "int (length (?ws ! i)) = chunk_size \<and> i * ?step + ?n < length content"
      by blast
  qed
  have final: "?ws \<noteq> [] \<longrightarrow> length content \<le> (length ?ws - 1) * ?step + ?n"
    using windows_reach_end [OF le, of content 0] by simp
  have empty: "?ws = [] \<longleftrightarrow> content = []"
    using windows_empty_iff [OF step, of content ?n 0] by simp
  have example: "chunk_text ''ABCDEFGH'' 4 2 = Inr [''ABCD'', ''CDEF'', ''EFGH'']"
    by (simp add: chunk_text_def windows.simps)
  from run each inner final empty example show ?thesis by blast
qed

text \<open>
  A last chunk shorter than the others, the scenario without overlap, and the empty
  text.
\<close>

theorem chunk_text_windows_witness:
  "chunk_text ''ABCDEFGHI'' 4 2 = Inr [''ABCD'', ''CDEF'', ''EFGH'', ''GHI''] \<and>
   chunk_text ''AAAABBBBCCCC'' 4 0 = Inr [''AAAA'', ''BBBB'', ''CCCC''] \<and>
   chunk_text [] 4 2 = Inr [] \<and>
   (\<exists>chunks. chunk_text ''ABCDEFGHI'' 4 2 = Inr chunks \<and>
      length ''ABCDEFGHI'' \<le> (length chunks - 1) * nat (4 - 2) + nat 4)"
proof -
  have runs: "chunk_text ''ABCDEFGHI'' 4 2 = Inr [''ABCD'', ''CDEF'', ''EFGH'', ''GHI''] \<and>
     chunk_text ''AAAABBBBCCCC'' 4 0 = Inr [''AAAA'', ''BBBB'', ''CCCC''] \<and>
     chunk_text [] 4 2 = Inr []"
    by (simp add: chunk_text_def windows.simps)
  have h: "(0::int) < 4" "(0::int) \<le> 2" "(2::int) < 4" by simp_all
  from chunk_text_windows [OF h, of "''ABCDEFGHI''"] runs
  have "\<exists>chunks. chunk_text ''ABCDEFGHI'' 4 2 = Inr chunks \<and>
      length ''ABCDEFGHI'' \<le> (length chunks - 1) * nat (4 - 2) + nat 4"
    by auto
  with runs show ?thesis by blast
qed

text \<open>
  C6: for every text, \<^verbatim>\<open>chunk_size <= 0\<close> or \<^verbatim>\<open>overlap >= chunk_size\<close> makes the chunker
  raise \<^verbatim>\<open>ConfigurationError\<close>: the call ends with that error, before the loop, and
  returns no chunks.
\<close>

theorem chunk_text_rejects:
  assumes "chunk_size \<le> 0 \<or> chunk_size \<le> overlap"
  shows "chunk_text content chunk_size overlap = Inl ConfigurationError"
  using assms by (simp add: chunk_text_def)

text \<open>An overlap equal to and above the size, a size of zero, a negative size.\<close>

theorem chunk_text_rejects_witness:
  "chunk_text ''ABCDEFGH'' 4 4 = Inl ConfigurationError \<and>
   chunk_text ''ABCDEFGH'' 4 5 = Inl ConfigurationError \<and>
   chunk_text ''ABCDEFGH'' 0 0 = Inl ConfigurationError \<and>
   chunk_text [] (- 1) (- 3) = Inl ConfigurationError"
proof -
  have a: "(4::int) \<le> 0 \<or> (4::int) \<le> 4" by simp
  have b: "(4::int) \<le> 0 \<or> (4::int) \<le> 5" by simp
  have c: "(0::int) \<le> 0 \<or> (0::int) \<le> 0" by simp
  have d: "(- 1::int) \<le> 0 \<or> (- 1::int) \<le> - 3" by simp
  from chunk_text_rejects [OF a] chunk_text_rejects [OF b] chunk_text_rejects [OF c]
    chunk_text_rejects [OF d]
  show ?thesis by blast
qed

end
